theory Spec2Isabelle
  imports Complex_Main
begin

section \<open>Linearized ADMM solver (scico/ladmm.py)\<close>

text \<open>
  A shallow embedding of the class \<open>LinearizedADMM\<close>. Every method that can raise returns a
  sum whose left summand is the exception; a method that mutates the solver returns the
  solver it leaves behind, also when it raises (Python keeps the attribute assignments made
  before the exception).

  Conventions of the model:
  \<^item> an array is a one-dimensional list of reals, its shape is its length; floating point
    rounding, overflow, infinities and NaN are not represented;
  \<^item> the operator \<open>C\<close> and the functionals \<open>f\<close>, \<open>g\<close> are parameters, given by the functions
    the solver calls on them, each of which may raise;
  \<^item> \<open>f\<close> is an optional functional, \<open>None\<close> being Python's \<open>None\<close>.
\<close>

subsection \<open>Exceptions\<close>

datatype error =
    ValueError              \<comment> \<open>raised by \<open>objective\<close>: both or neither of x and z\<close>
  | AttributeError string   \<comment> \<open>attribute lookup that fails, with the attribute's name\<close>
  | ZeroDivisionError       \<comment> \<open>\<open>self.mu / self.nu\<close> on Python floats with \<open>nu = 0\<close>\<close>
  | IncompatibleShapes      \<comment> \<open>array arithmetic on shapes that do not broadcast\<close>
  | External string         \<comment> \<open>an exception raised inside the operator, a functional or a callback\<close>

text \<open>
  The solver's own exceptions are the first four. A collaborator (the operator, a functional,
  a caller's function) returns its value or the description of the exception it raises; the
  solver does not catch it, and \<open>external\<close> marks it as coming from outside.
\<close>

primrec external :: "string + 'a \<Rightarrow> error + 'a" where
  "external (Inl m) = Inl (External m)"
| "external (Inr v) = Inr v"

primrec bind_error :: "error + 'a \<Rightarrow> ('a \<Rightarrow> error + 'b) \<Rightarrow> error + 'b" where
  "bind_error (Inl e) k = Inl e"
| "bind_error (Inr v) k = k v"

subsection \<open>Arrays\<close>

type_synonym array = "real list"

text \<open>
  Elementwise arithmetic of one-dimensional arrays: equal shapes combine pointwise, a
  one-element array broadcasts against the other operand, anything else raises.
\<close>

definition broadcast2 :: "(real \<Rightarrow> real \<Rightarrow> real) \<Rightarrow> array \<Rightarrow> array \<Rightarrow> error + array" where
  "broadcast2 h a b =
     (if length a = length b then Inr (map2 h a b)
      else if length a = 1 then Inr (map (h (hd a)) b)
      else if length b = 1 then Inr (map (\<lambda>v. h v (hd b)) a)
      else Inl IncompatibleShapes)"

definition arr_add :: "array \<Rightarrow> array \<Rightarrow> error + array" where
  "arr_add a b = broadcast2 (\<lambda>p q. p + q) a b"

definition arr_sub :: "array \<Rightarrow> array \<Rightarrow> error + array" where
  "arr_sub a b = broadcast2 (\<lambda>p q. p - q) a b"

definition arr_scale :: "real \<Rightarrow> array \<Rightarrow> array" where
  "arr_scale c a = map (\<lambda>q. c * q) a"

definition zeros :: "nat \<Rightarrow> array" where
  "zeros n = replicate n 0"

definition norm_l2 :: "array \<Rightarrow> real" where
  "norm_l2 a = sqrt (sum_list (map (\<lambda>q. q * q) a))"

subsection \<open>The collaborators: operator, functional, timer, iteration statistics\<close>

record LinearOperator =
  input_shape :: nat
  output_shape :: nat
  call :: "array \<Rightarrow> string + array"      \<comment> \<open>\<open>C(v)\<close>\<close>
  adjoint :: "array \<Rightarrow> string + array"   \<comment> \<open>\<open>C.conj().T(v)\<close> and \<open>C.adj(v)\<close>\<close>

record Functional =
  has_eval :: bool
  eval :: "array \<Rightarrow> string + real"                       \<comment> \<open>\<open>h(v)\<close>\<close>
  prox :: "array \<Rightarrow> real \<Rightarrow> array \<Rightarrow> string + array"     \<comment> \<open>\<open>h.prox(v, lam, v0=w)\<close>\<close>

text \<open>
  Modelled from the spec: the class \<open>Timer\<close> of \<open>scico.util\<close> is not part of the sources at
  hand. The spec makes it an accumulator that \<open>start()\<close> resumes and \<open>stop()\<close> pauses; the
  model keeps whether it is running, the readings of the wall clock are not represented.
\<close>

record Timer =
  running :: bool

definition Timer_init :: Timer where
  "Timer_init = \<lparr>running = False\<rparr>"

definition start :: "Timer \<Rightarrow> Timer" where
  "start t = t\<lparr>running := True\<rparr>"

definition stop :: "Timer \<Rightarrow> Timer" where
  "stop t = t\<lparr>running := False\<rparr>"

text \<open>A value of an iteration statistics tuple; \<open>Elapsed\<close> stands for a reading of the timer.\<close>

datatype stat = IntStat int | FloatStat real | Elapsed | ObjectStat string

text \<open>
  Modelled from the spec: the class \<open>IterationStats\<close> of \<open>scico.diagnostics\<close> is not part of the
  sources at hand. The spec makes it accumulate one record per call of \<open>insert\<close>, in insertion
  order, under a fixed list of fields with their formats, and optionally display each record.
\<close>

record IterationStats =
  fieldspec :: "(string \<times> string) list"
  display :: bool
  iterations :: "stat list list"

definition IterationStats_init :: "(string \<times> string) list \<Rightarrow> bool \<Rightarrow> IterationStats" where
  "IterationStats_init spec disp = \<lparr>fieldspec = spec, display = disp, iterations = []\<rparr>"

definition insert_stats :: "IterationStats \<Rightarrow> stat list \<Rightarrow> IterationStats" where
  "insert_stats st vals = st\<lparr>iterations := iterations st @ [vals]\<rparr>"

subsection \<open>The solver object\<close>

text \<open>
  What a caller-supplied statistics function may read of the solver: the iterates and the
  counter.
\<close>

record solver_view =
  view_x :: array
  view_z :: array
  view_z_old :: array
  view_u :: array
  view_itnum :: int

text \<open>
  The three functions \<open>__init__\<close> can store in \<open>itstat_insert_func\<close>: the default one of a \<open>g\<close>
  that can be evaluated, the default one of a \<open>g\<close> that cannot, and the caller's.
\<close>

datatype itstat_closure =
    Itstat_with_objective
  | Itstat_without_objective
  | Itstat_custom "solver_view \<Rightarrow> string + stat list"

record solver =
  f :: "Functional option"
  g :: Functional
  C :: LinearOperator
  mu :: real
  nu :: real
  itnum :: int
  maxiter :: int
  timer :: Timer
  verbose :: bool
  itstat_object :: IterationStats
  itstat_insert_func :: itstat_closure
  x :: array
  z :: array
  z_old :: array
  u :: array

text \<open>A method that mutates the solver: the solver it returns, or the exception and the solver left behind.\<close>

type_synonym 'a raising = "(error \<times> solver) + 'a"

text \<open>Evaluate an expression in state \<open>s\<close>; when it raises, \<open>s\<close> is what is left.\<close>

primrec try_in :: "'s \<Rightarrow> error + 'a \<Rightarrow> ('a \<Rightarrow> (error \<times> 's) + 'b) \<Rightarrow> (error \<times> 's) + 'b" where
  "try_in s (Inl e) k = Inl (e, s)"
| "try_in s (Inr v) k = k v"

subsection \<open>Construction\<close>

definition z_init :: "LinearOperator \<Rightarrow> array \<Rightarrow> error + array \<times> array" where
  "z_init C0 x0 = bind_error (external (call C0 x0)) (\<lambda>z0. Inr (z0, z0))"

definition u_init :: "LinearOperator \<Rightarrow> array \<Rightarrow> array" where
  "u_init C0 x0 = zeros (output_shape C0)"

definition fields_with_objective :: "(string \<times> string) list" where
  "fields_with_objective =
     [(''Iter'', ''%d''), (''Time'', ''%8.2e''), (''Objective'', ''%8.3e''),
      (''Primal Rsdl'', ''%8.3e''), (''Dual Rsdl'', ''%8.3e'')]"

definition fields_without_objective :: "(string \<times> string) list" where
  "fields_without_objective =
     [(''Iter'', ''%d''), (''Time'', ''%8.1e''),
      (''Primal Rsdl'', ''%8.3e''), (''Dual Rsdl'', ''%8.3e'')]"

definition LinearizedADMM_init ::
  "Functional option \<Rightarrow> Functional \<Rightarrow> LinearOperator \<Rightarrow> real \<Rightarrow> real \<Rightarrow> array option \<Rightarrow> int \<Rightarrow> bool \<Rightarrow>
   ((string \<times> string) list \<times> (solver_view \<Rightarrow> string + stat list)) option \<Rightarrow> error + solver" where
  "LinearizedADMM_init f0 g0 C0 mu0 nu0 x0 maxiter0 verbose0 itstat =
     (let (itstat_dict, itstat_func) =
            (case itstat of
               Some (d, h) \<Rightarrow> (d, Itstat_custom h)
             | None \<Rightarrow>
                 if has_eval g0 then (fields_with_objective, Itstat_with_objective)
                 else (fields_without_objective, Itstat_without_objective));
          x1 = (case x0 of None \<Rightarrow> zeros (input_shape C0) | Some v \<Rightarrow> v)
      in bind_error (z_init C0 x1) (\<lambda>(z0, z_old0).
           Inr \<lparr>f = f0, g = g0, C = C0, mu = mu0, nu = nu0, itnum = 0, maxiter = maxiter0,
                timer = Timer_init, verbose = verbose0,
                itstat_object = IterationStats_init itstat_dict verbose0,
                itstat_insert_func = itstat_func,
                x = x1, z = z0, z_old = z_old0, u = u_init C0 x1\<rparr>))"

subsection \<open>Objective and residuals\<close>

definition objective_at :: "solver \<Rightarrow> array \<Rightarrow> array \<Rightarrow> error + real" where
  "objective_at s xv zv =
     bind_error (case f s of None \<Rightarrow> Inr 0 | Some f0 \<Rightarrow> bind_error (external (eval f0 xv)) (\<lambda>fx. Inr (0 + fx)))
       (\<lambda>out. bind_error (external (eval (g s) zv)) (\<lambda>gz. Inr (out + gz)))"

fun objective :: "solver \<Rightarrow> array option \<Rightarrow> array option \<Rightarrow> error + real" where
  "objective s None None = objective_at s (x s) (z s)"
| "objective s (Some xv) (Some zv) = objective_at s xv zv"
| "objective s None (Some zv) = Inl ValueError"
| "objective s (Some xv) None = Inl ValueError"

definition norm_primal_residual :: "solver \<Rightarrow> array option \<Rightarrow> error + real" where
  "norm_primal_residual s xo =
     (let xv = (case xo of None \<Rightarrow> x s | Some v \<Rightarrow> v)
      in bind_error (external (call (C s) (x s))) (\<lambda>Cx.
         bind_error (arr_sub Cx (z s)) (\<lambda>d. Inr (norm_l2 d))))"

definition norm_dual_residual :: "solver \<Rightarrow> error + real" where
  "norm_dual_residual s =
     bind_error (arr_sub (z s) (z_old s)) (\<lambda>d.
     bind_error (external (adjoint (C s) d)) (\<lambda>a. Inr (norm_l2 a)))"

subsection \<open>One iteration\<close>

definition proxarg :: "solver \<Rightarrow> error + array" where
  "proxarg s =
     (if nu s = 0 then Inl ZeroDivisionError
      else bind_error (external (call (C s) (x s))) (\<lambda>Cx.
           bind_error (arr_sub Cx (z s)) (\<lambda>d.
           bind_error (arr_add d (u s)) (\<lambda>r.
           bind_error (external (adjoint (C s) r)) (\<lambda>a.
           arr_sub (x s) (arr_scale (mu s / nu s) a))))))"

definition step :: "solver \<Rightarrow> solver raising" where
  "step s =
     try_in s (proxarg s) (\<lambda>p.
     try_in s (case f s of None \<Rightarrow> Inl (AttributeError ''prox'') | Some f0 \<Rightarrow> external (prox f0 p (mu s) (x s))) (\<lambda>x1.
     let s1 = s\<lparr>x := x1\<rparr>;
         s2 = s1\<lparr>z_old := z s1\<rparr>
     in try_in s2 (external (call (C s2) (x s2))) (\<lambda>Cx.
        try_in s2 (bind_error (arr_add Cx (u s2)) (\<lambda>w. external (prox (g s2) w (nu s2) (z s2)))) (\<lambda>z1.
        let s3 = s2\<lparr>z := z1\<rparr>
        in try_in s3 (bind_error (arr_add (u s3) Cx) (\<lambda>t. arr_sub t (z s3))) (\<lambda>u1.
           Inr (s3\<lparr>u := u1\<rparr>))))))"

subsection \<open>Iteration statistics\<close>

text \<open>
  Attribute lookup on a solver instance, for the attributes whose value is a number; the
  other attributes and the methods give an object, any other name raises.
\<close>

definition getattr :: "solver \<Rightarrow> string \<Rightarrow> error + stat" where
  "getattr s name =
     (if name = ''itnum'' then Inr (IntStat (itnum s))
      else if name = ''maxiter'' then Inr (IntStat (maxiter s))
      else if name = ''mu'' then Inr (FloatStat (mu s))
      else if name = ''nu'' then Inr (FloatStat (nu s))
      else if name \<in> set [''f'', ''g'', ''C'', ''timer'', ''verbose'', ''itstat_object'',
                           ''itstat_insert_func'', ''x'', ''z'', ''z_old'', ''u'',
                           ''objective'', ''norm_primal_residual'', ''norm_dual_residual'',
                           ''z_init'', ''u_init'', ''step'', ''solve'']
      then Inr (ObjectStat name)
      else Inl (AttributeError name))"

definition view_of :: "solver \<Rightarrow> solver_view" where
  "view_of s = \<lparr>view_x = x s, view_z = z s, view_z_old = z_old s, view_u = u s, view_itnum = itnum s\<rparr>"

definition itstat_func :: "solver \<Rightarrow> error + stat list" where
  "itstat_func s =
     (case itstat_insert_func s of
        Itstat_with_objective \<Rightarrow>
          bind_error (objective s None None) (\<lambda>ob.
          bind_error (norm_primal_residual s None) (\<lambda>pr.
          bind_error (norm_dual_residual s) (\<lambda>dr.
          Inr [IntStat (itnum s), Elapsed, FloatStat ob, FloatStat pr, FloatStat dr])))
      | Itstat_without_objective \<Rightarrow>
          bind_error (getattr s ''i'') (\<lambda>i.
          bind_error (norm_primal_residual s None) (\<lambda>pr.
          bind_error (norm_dual_residual s) (\<lambda>dr.
          Inr [i, Elapsed, FloatStat pr, FloatStat dr])))
      | Itstat_custom h \<Rightarrow> external (h (view_of s)))"

subsection \<open>The iteration loop\<close>

text \<open>Python's \<open>range(a, b)\<close> on integers.\<close>

definition py_range :: "int \<Rightarrow> int \<Rightarrow> int list" where
  "py_range a b = [a..b - 1]"

text \<open>
  A callback observes the solver and returns, or raises. The loop variable of the \<open>for\<close>
  statement is the attribute \<open>itnum\<close> itself.
\<close>

fun solve_loop :: "(solver \<Rightarrow> string option) option \<Rightarrow> int list \<Rightarrow> solver \<Rightarrow> solver raising" where
  "solve_loop callback [] s = Inr s"
| "solve_loop callback (k # ks) s =
     (let s0 = s\<lparr>itnum := k\<rparr> in
      case step s0 of
        Inl es \<Rightarrow> Inl es
      | Inr s1 \<Rightarrow>
          (case itstat_func s1 of
             Inl e \<Rightarrow> Inl (e, s1)
           | Inr vals \<Rightarrow>
               (let s2 = s1\<lparr>itstat_object := insert_stats (itstat_object s1) vals\<rparr> in
                case callback of
                  None \<Rightarrow> solve_loop callback ks s2
                | Some cb \<Rightarrow>
                    (let s3 = s2\<lparr>timer := stop (timer s2)\<rparr> in
                     case cb s3 of
                       Some m \<Rightarrow> Inl (External m, s3)
                     | None \<Rightarrow> solve_loop callback ks (s3\<lparr>timer := start (timer s3)\<rparr>)))))"

definition solve :: "solver \<Rightarrow> (solver \<Rightarrow> string option) option \<Rightarrow> (solver \<times> array) raising" where
  "solve s callback =
     (let s0 = s\<lparr>timer := start (timer s)\<rparr> in
      case solve_loop callback (py_range (itnum s0) (itnum s0 + maxiter s0)) s0 of
        Inl es \<Rightarrow> Inl es
      | Inr s1 \<Rightarrow>
          (let s2 = s1\<lparr>timer := stop (timer s1)\<rparr>;
               s3 = s2\<lparr>itnum := itnum s2 + 1\<rparr>
           in Inr (s3, x s3)))"

subsection \<open>A concrete problem\<close>

text \<open>
  The identity operator on arrays of a given shape, the zero functional and the indicator of
  the non-negative orthant, whose prox clamps every entry at 0. The indicator is \<open>+inf\<close> at a
  point with a negative entry, which is not a real number: its evaluation raises there.
\<close>

definition Identity :: "nat \<Rightarrow> LinearOperator" where
  "Identity n =
     \<lparr>input_shape = n, output_shape = n,
      call = (\<lambda>v. if length v = n then Inr v else Inl ''input shape''),
      adjoint = (\<lambda>v. if length v = n then Inr v else Inl ''input shape'')\<rparr>"

definition ZeroFunctional :: Functional where
  "ZeroFunctional = \<lparr>has_eval = True, eval = (\<lambda>v. Inr 0), prox = (\<lambda>v lam v0. Inr v)\<rparr>"

definition NonNegativeIndicator :: Functional where
  "NonNegativeIndicator =
     \<lparr>has_eval = True,
      eval = (\<lambda>v. if list_all (\<lambda>q. 0 \<le> q) v then Inr 0 else Inl ''inf''),
      prox = (\<lambda>v lam v0. Inr (map (\<lambda>q. max 0 q) v))\<rparr>"

text \<open>The solver built from them with \<open>mu = 0.5\<close>, \<open>nu = 1.0\<close> and \<open>x0 = [-1, 2]\<close>.\<close>

definition scenario_init :: "error + solver" where
  "scenario_init =
     LinearizedADMM_init (Some ZeroFunctional) NonNegativeIndicator (Identity 2) (1 / 2) 1
       (Some [- 1, 2]) 100 False None"

definition scenario_0 :: solver where
  "scenario_0 =
     \<lparr>f = Some ZeroFunctional, g = NonNegativeIndicator, C = Identity 2, mu = 1 / 2, nu = 1,
      itnum = 0, maxiter = 100, timer = \<lparr>running = False\<rparr>, verbose = False,
      itstat_object = \<lparr>fieldspec = fields_with_objective, display = False, iterations = []\<rparr>,
      itstat_insert_func = Itstat_with_objective,
      x = [- 1, 2], z = [- 1, 2], z_old = [- 1, 2], u = [0, 0]\<rparr>"

definition scenario_1 :: solver where
  "scenario_1 = scenario_0\<lparr>x := [- 1, 2], z_old := [- 1, 2], z := [0, 2], u := [- 1, 0]\<rparr>"

definition within_tol :: "real \<Rightarrow> array \<Rightarrow> array \<Rightarrow> bool" where
  "within_tol tol a b = list_all2 (\<lambda>p q. \<bar>p - q\<bar> \<le> tol) a b"

text \<open>The same problem with a \<open>g\<close> that cannot be evaluated.\<close>

definition scenario_noeval_0 :: solver where
  "scenario_noeval_0 =
     scenario_0\<lparr>g := NonNegativeIndicator\<lparr>has_eval := False\<rparr>,
       itstat_object := \<lparr>fieldspec = fields_without_objective, display = False, iterations = []\<rparr>,
       itstat_insert_func := Itstat_without_objective\<rparr>"

definition scenario_noeval_1 :: solver where
  "scenario_noeval_1 =
     scenario_noeval_0\<lparr>x := [- 1, 2], z_old := [- 1, 2], z := [0, 2], u := [- 1, 0]\<rparr>"

text \<open>
  The l1 norm, whose prox is soft thresholding, and a solver with it as both functionals, to
  evaluate the objective at points where it is not zero.
\<close>

definition L1Norm :: Functional where
  "L1Norm =
     \<lparr>has_eval = True,
      eval = (\<lambda>v. Inr (sum_list (map (\<lambda>q. \<bar>q\<bar>) v))),
      prox = (\<lambda>v lam v0. Inr (map (\<lambda>q. sgn q * max 0 (\<bar>q\<bar> - lam)) v))\<rparr>"

definition objective_example :: solver where
  "objective_example = scenario_1\<lparr>f := Some L1Norm, g := L1Norm\<rparr>"

text \<open>The same problem with a caller's statistics function, which records the counter, and a
  budget of two iterations.\<close>

definition scenario_counting :: solver where
  "scenario_counting =
     scenario_0\<lparr>maxiter := 2,
       itstat_object := \<lparr>fieldspec = [(''Iter'', ''%d'')], display = False, iterations = []\<rparr>,
       itstat_insert_func := Itstat_custom (\<lambda>v. Inr [IntStat (view_itnum v)])\<rparr>"

definition scenario_counting_first :: solver where
  "scenario_counting_first =
     scenario_counting\<lparr>x := [- 1, 2], z_old := [- 1, 2], z := [0, 2], u := [- 1, 0],
       maxiter := 1, itnum := 1,
       itstat_object := \<lparr>fieldspec = [(''Iter'', ''%d'')], display = False,
         iterations = [[IntStat 0]]\<rparr>\<rparr>"

definition scenario_counting_solved :: solver where
  "scenario_counting_solved =
     scenario_counting\<lparr>x := [0, 2], z_old := [0, 2], z := [0, 2], u := [- 1, 0], itnum := 2,
       itstat_object := \<lparr>fieldspec = [(''Iter'', ''%d'')], display = False,
         iterations = [[IntStat 0], [IntStat 1]]\<rparr>\<rparr>"

subsection \<open>Notions used to state the properties\<close>


text \<open>Two solvers with the same problem and the same iterates.\<close>

definition same_problem :: "solver \<Rightarrow> solver \<Rightarrow> bool" where
  "same_problem s t \<longleftrightarrow>
     f s = f t \<and> g s = g t \<and> C s = C t \<and> mu s = mu t \<and> nu s = nu t \<and>
     x s = x t \<and> z s = z t \<and> z_old s = z_old t \<and> u s = u t"

text \<open>... that also agree on the counter and on the statistics function.\<close>

definition same_run :: "solver \<Rightarrow> solver \<Rightarrow> bool" where
  "same_run s t \<longleftrightarrow>
     same_problem s t \<and> itnum s = itnum t \<and> itstat_insert_func s = itstat_insert_func t"

text \<open>
  A solver whose iteration cannot raise: \<open>nu\<close> is not zero, \<open>f\<close> is present, the iterates have
  the shapes of the operator, and the operator, its adjoint and the two prox maps return
  arrays of the right shape on arrays of the right shape.
\<close>

definition well_posed :: "solver \<Rightarrow> bool" where
  "well_posed s \<longleftrightarrow>
     nu s \<noteq> 0 \<and>
     length (x s) = input_shape (C s) \<and> length (z s) = output_shape (C s) \<and>
     length (z_old s) = output_shape (C s) \<and> length (u s) = output_shape (C s) \<and>
     (\<forall>v. length v = input_shape (C s) \<longrightarrow>
        (\<exists>w. call (C s) v = Inr w \<and> length w = output_shape (C s))) \<and>
     (\<forall>v. length v = output_shape (C s) \<longrightarrow>
        (\<exists>w. adjoint (C s) v = Inr w \<and> length w = input_shape (C s))) \<and>
     (\<exists>f0. f s = Some f0 \<and>
        (\<forall>v lam v0. length v = input_shape (C s) \<and> length v0 = input_shape (C s) \<longrightarrow>
           (\<exists>w. prox f0 v lam v0 = Inr w \<and> length w = input_shape (C s)))) \<and>
     (\<forall>v lam v0. length v = output_shape (C s) \<and> length v0 = output_shape (C s) \<longrightarrow>
        (\<exists>w. prox (g s) v lam v0 = Inr w \<and> length w = output_shape (C s)))"

text \<open>A solver whose statistics function returns: the functionals can be evaluated, or the
  caller's function returns.\<close>

definition statistics_posed :: "solver \<Rightarrow> bool" where
  "statistics_posed s \<longleftrightarrow>
     (case itstat_insert_func s of
        Itstat_with_objective \<Rightarrow>
          (\<forall>v. \<exists>r. eval (g s) v = Inr r) \<and>
          (\<forall>f0 v. f s = Some f0 \<longrightarrow> (\<exists>r. eval f0 v = Inr r))
      | Itstat_without_objective \<Rightarrow> False
      | Itstat_custom h \<Rightarrow> (\<forall>v. \<exists>vals. h v = Inr vals))"

text \<open>A callback that never raises.\<close>

definition callback_returns :: "(solver \<Rightarrow> string option) option \<Rightarrow> bool" where
  "callback_returns callback \<longleftrightarrow> (case callback of None \<Rightarrow> True | Some cb \<Rightarrow> (\<forall>t. cb t = None))"

subsection \<open>Object identity of the arrays\<close>

text \<open>
  The solver never writes into an array: it binds its attributes to the arrays that the
  operations return. Whether two attributes are bound to one object is therefore a matter of
  identities alone. Every array object has an identity, a natural number, and an operation
  that builds an array gives it an identity not yet in use; \<open>next_id\<close> is a bound above the
  identities of the objects bound to the four array attributes. A collaborator returns a new
  object, the array it was given, or its warm start.
\<close>

record identities =
  x_id :: nat
  z_id :: nat
  z_old_id :: nat
  u_id :: nat
  next_id :: nat

datatype returned = Fresh | Input | WarmStart

text \<open>The identity of a collaborator's result, and the next free identity after the call.\<close>

fun result_id :: "returned \<Rightarrow> nat \<Rightarrow> nat \<Rightarrow> nat \<Rightarrow> nat \<times> nat" where
  "result_id Fresh inp warm n = (n, Suc n)"
| "result_id Input inp warm n = (inp, n)"
| "result_id WarmStart inp warm n = (warm, n)"

text \<open>What the five collaborator calls of one iteration return.\<close>

record aliasing =
  of_C_x :: returned
  of_adjoint :: returned
  of_f_prox :: returned
  of_C_x1 :: returned
  of_g_prox :: returned

text \<open>
  \<open>__init__\<close>: \<open>x\<close> is object 0, \<open>z = C(x)\<close>, \<open>z_old = z.copy()\<close> is a new object, and so is \<open>u\<close>.
\<close>

definition init_ids :: "returned \<Rightarrow> identities" where
  "init_ids r =
     (let (zi, n1) = result_id r 0 0 1
      in \<lparr>x_id = 0, z_id = zi, z_old_id = n1, u_id = Suc n1, next_id = n1 + 2\<rparr>)"

text \<open>
  The four assignments of \<open>step\<close>. Every arithmetic operation builds a new array; \<open>z.copy()\<close>
  builds a new array.
\<close>

definition assign_x :: "aliasing \<Rightarrow> identities \<Rightarrow> identities" where
  "assign_x al i =
     (let (Cx, n1) = result_id (of_C_x al) (x_id i) (x_id i) (next_id i);
          (a, n2) = result_id (of_adjoint al) (Suc n1) (Suc n1) (n1 + 2);
          (x1, n3) = result_id (of_f_prox al) (Suc n2) (x_id i) (n2 + 2)
      in i\<lparr>x_id := x1, next_id := n3\<rparr>)"

definition assign_z_old :: "identities \<Rightarrow> identities" where
  "assign_z_old i = i\<lparr>z_old_id := next_id i, next_id := Suc (next_id i)\<rparr>"

definition assign_z :: "aliasing \<Rightarrow> identities \<Rightarrow> identities" where
  "assign_z al i =
     (let (Cx, n1) = result_id (of_C_x1 al) (x_id i) (x_id i) (next_id i);
          (z1, n2) = result_id (of_g_prox al) n1 (z_id i) (Suc n1)
      in i\<lparr>z_id := z1, next_id := n2\<rparr>)"

definition assign_u :: "identities \<Rightarrow> identities" where
  "assign_u i = i\<lparr>u_id := Suc (next_id i), next_id := next_id i + 2\<rparr>"

definition step_obj ::
  "aliasing \<Rightarrow> solver \<times> identities \<Rightarrow> (error \<times> solver \<times> identities) + solver \<times> identities" where
  "step_obj al si =
     (case si of (s, i) \<Rightarrow>
      try_in (s, i) (proxarg s) (\<lambda>p.
      try_in (s, i) (case f s of None \<Rightarrow> Inl (AttributeError ''prox'')
                     | Some f0 \<Rightarrow> external (prox f0 p (mu s) (x s))) (\<lambda>x1.
      let s1 = s\<lparr>x := x1\<rparr>; i1 = assign_x al i;
          s2 = s1\<lparr>z_old := z s1\<rparr>; i2 = assign_z_old i1
      in try_in (s2, i2) (external (call (C s2) (x s2))) (\<lambda>Cx.
         try_in (s2, i2) (bind_error (arr_add Cx (u s2)) (\<lambda>w. external (prox (g s2) w (nu s2) (z s2)))) (\<lambda>z1.
         let s3 = s2\<lparr>z := z1\<rparr>; i3 = assign_z al i2
         in try_in (s3, i3) (bind_error (arr_add (u s3) Cx) (\<lambda>t. arr_sub t (z s3))) (\<lambda>u1.
            Inr (s3\<lparr>u := u1\<rparr>, assign_u i3)))))))"

text \<open>
  The states of a solver object: the constructor's, those a call of \<open>step\<close> leaves (returning
  or raising), and those after the other methods and the caller have assigned the attributes
  that are not arrays and built temporary arrays.
\<close>

inductive reachable :: "solver \<times> identities \<Rightarrow> bool" where
  constructed:
    "LinearizedADMM_init f0 g0 C0 mu0 nu0 x0 maxiter0 verbose0 itstat = Inr s \<Longrightarrow>
     reachable (s, init_ids r)"
| stepped: "reachable si \<Longrightarrow> step_obj al si = Inr si' \<Longrightarrow> reachable si'"
| step_raised: "reachable si \<Longrightarrow> step_obj al si = Inl (e, si') \<Longrightarrow> reachable si'"
| bookkeeping:
    "reachable (s, i) \<Longrightarrow>
     reachable (s\<lparr>itnum := k, maxiter := m, timer := tm, itstat_object := st\<rparr>,
                i\<lparr>next_id := next_id i + n\<rparr>)"

text \<open>The array attributes are bound to objects in use, and \<open>z\<close>, \<open>z_old\<close> to two of them.\<close>

definition ids_ok :: "identities \<Rightarrow> bool" where
  "ids_ok i \<longleftrightarrow>
     x_id i < next_id i \<and> z_id i < next_id i \<and> z_old_id i < next_id i \<and> u_id i < next_id i \<and>
     z_id i \<noteq> z_old_id i"

text \<open>
  In the concrete problem the identity operator returns its argument, the zero functional's
  prox returns the array it was given, and the clamp builds a new array.
\<close>

definition scenario_aliasing :: aliasing where
  "scenario_aliasing =
     \<lparr>of_C_x = Input, of_adjoint = Input, of_f_prox = Input, of_C_x1 = Input, of_g_prox = Fresh\<rparr>"

section \<open>Properties\<close>

subsection \<open>Exceptions and the concrete problem\<close>

lemmas scenario_defs = scenario_0_def scenario_1_def Identity_def ZeroFunctional_def
  NonNegativeIndicator_def

lemmas arr_defs = arr_sub_def arr_add_def arr_scale_def broadcast2_def

lemmas solver_defs = step_def proxarg_def itstat_func_def objective_at_def norm_primal_residual_def
  norm_dual_residual_def norm_l2_def insert_stats_def start_def stop_def Let_def

lemma external_Inl_iff: "external r = Inl e \<longleftrightarrow> (\<exists>m. r = Inl m \<and> e = External m)"
  by (cases r) auto

lemma external_Inr_iff: "external r = Inr v \<longleftrightarrow> r = Inr v"
  by (cases r) auto

lemma bind_error_Inl_iff:
  "bind_error r k = Inl e \<longleftrightarrow> r = Inl e \<or> (\<exists>v. r = Inr v \<and> k v = Inl e)"
  by (cases r) auto

lemma bind_error_Inr_iff:
  "bind_error r k = Inr w \<longleftrightarrow> (\<exists>v. r = Inr v \<and> k v = Inr w)"
  by (cases r) auto

lemma try_in_Inr_iff:
  "try_in s r k = Inr w \<longleftrightarrow> (\<exists>v. r = Inr v \<and> k v = Inr w)"
  by (cases r) auto

lemma try_in_case: "try_in s r k = (case r of Inl e \<Rightarrow> Inl (e, s) | Inr v \<Rightarrow> k v)"
  by (cases r) simp_all

lemma scenario_init_eq: "scenario_init = Inr scenario_0"
  by (simp add: scenario_init_def scenario_0_def LinearizedADMM_init_def z_init_def u_init_def
      Identity_def NonNegativeIndicator_def zeros_def Timer_init_def IterationStats_init_def
      numeral_2_eq_2 Let_def)

lemma proxarg_scenario_0: "proxarg scenario_0 = Inr [- 1, 2]"
  by (simp add: proxarg_def scenario_defs arr_defs)

lemma step_scenario_0: "step scenario_0 = Inr scenario_1"
  unfolding step_def proxarg_scenario_0
  by (simp add: scenario_defs arr_defs Let_def)

subsection \<open>The primal residual\<close>

text \<open>
  Claim C2. \<open>norm_primal_residual(x)\<close> is documented to return the norm of \<open>C(x) - z\<close> at the
  argument. On the solver of the concrete problem as constructed, where \<open>self.x = z = [-1, 2]\<close>,
  the call \<open>norm_primal_residual([0, 2])\<close> returns 0, the residual at \<open>self.x\<close>, while the
  norm of \<open>C([0, 2]) - z\<close> is 1.
\<close>

theorem norm_primal_residual_ignores_argument:
  "norm_primal_residual scenario_0 (Some [0, 2]) = Inr 0 \<and>
   bind_error (external (call (C scenario_0) [0, 2])) (\<lambda>Cx.
     bind_error (arr_sub Cx (z scenario_0)) (\<lambda>d. Inr (norm_l2 d))) = Inr 1"
  by (simp add: norm_primal_residual_def scenario_defs arr_defs norm_l2_def)

text \<open>The argument is never read: the result is that of the call without argument.\<close>

lemma norm_primal_residual_argument_unused:
  "norm_primal_residual s xo = norm_primal_residual s None"
  by (simp add: norm_primal_residual_def)

subsection \<open>Construction\<close>

text \<open>
  Claim C3, as stated, fails: with \<open>mu = -1\<close> and \<open>nu = 0\<close> the constructor returns a solver.
\<close>

theorem init_accepts_nonpositive_parameters:
  "LinearizedADMM_init (Some ZeroFunctional) NonNegativeIndicator (Identity 2) (- 1) 0
     (Some [- 1, 2]) 100 False None = Inr (scenario_0\<lparr>mu := - 1, nu := 0\<rparr>)"
  by (simp add: scenario_0_def LinearizedADMM_init_def z_init_def u_init_def
      Identity_def NonNegativeIndicator_def zeros_def Timer_init_def IterationStats_init_def
      numeral_2_eq_2 Let_def)

text \<open>
  Claim C3, amended. The constructor checks neither \<open>mu\<close>, \<open>nu\<close> nor the shape of \<open>x0\<close>.
  For all values of \<open>mu\<close> and \<open>nu\<close> it returns a solver exactly when the call \<open>C(x0)\<close>
  returns (\<open>x0\<close> being the zero array of \<open>C\<close>'s input shape when omitted), and the solver
  has the given \<open>mu\<close> and \<open>nu\<close>, the counter 0, \<open>z = z_old = C(x0)\<close> and a zero \<open>u\<close>; when
  \<open>C(x0)\<close> raises, the constructor raises the operator's exception and none of its own.
\<close>

theorem init_no_validation:
  "LinearizedADMM_init f0 g0 C0 mu0 nu0 x0 maxiter0 verbose0 itstat =
     (case call C0 (case x0 of None \<Rightarrow> zeros (input_shape C0) | Some v \<Rightarrow> v) of
        Inl m \<Rightarrow> Inl (External m)
      | Inr z0 \<Rightarrow>
          Inr \<lparr>f = f0, g = g0, C = C0, mu = mu0, nu = nu0, itnum = 0, maxiter = maxiter0,
               timer = \<lparr>running = False\<rparr>, verbose = verbose0,
               itstat_object =
                 \<lparr>fieldspec =
                    (case itstat of Some (d, h) \<Rightarrow> d
                     | None \<Rightarrow> if has_eval g0 then fields_with_objective else fields_without_objective),
                  display = verbose0, iterations = []\<rparr>,
               itstat_insert_func =
                 (case itstat of Some (d, h) \<Rightarrow> Itstat_custom h
                  | None \<Rightarrow> if has_eval g0 then Itstat_with_objective else Itstat_without_objective),
               x = (case x0 of None \<Rightarrow> zeros (input_shape C0) | Some v \<Rightarrow> v),
               z = z0, z_old = z0, u = zeros (output_shape C0)\<rparr>)"
  by (simp add: LinearizedADMM_init_def z_init_def u_init_def Timer_init_def IterationStats_init_def
      Let_def split: option.splits sum.splits prod.splits)

subsection \<open>The objective\<close>

lemma objective_at_not_ValueError: "objective_at s xv zv \<noteq> Inl ValueError"
  by (auto simp: objective_at_def bind_error_Inl_iff external_Inl_iff split: option.splits)

text \<open>
  Claim C4. \<open>objective(x, z)\<close> raises its \<open>ValueError\<close> exactly when one of \<open>x\<close> and \<open>z\<close> is
  given and the other is not. That holds for every solver, also one whose functionals raise
  when evaluated: the check comes before any evaluation of \<open>f\<close> or \<open>g\<close>. With both given it
  returns \<open>f(x) + g(z)\<close> at the given point, and \<open>g(z)\<close> alone when \<open>f\<close> is absent; with
  neither given it is the call at the current iterates \<open>self.x\<close>, \<open>self.z\<close>. An exception of
  \<open>f(x)\<close>, or else of \<open>g(z)\<close>, propagates.
\<close>

theorem objective_contract:
  "(objective s xo zo = Inl ValueError \<longleftrightarrow> (xo = None) \<noteq> (zo = None)) \<and>
   (f s = Some f0 \<and> eval f0 xv = Inr a \<and> eval (g s) zv = Inr b \<longrightarrow>
      objective s (Some xv) (Some zv) = Inr (a + b)) \<and>
   (f s = Some f0 \<and> eval f0 (x s) = Inr a' \<and> eval (g s) (z s) = Inr b' \<longrightarrow>
      objective s None None = Inr (a' + b')) \<and>
   (f s = None \<and> eval (g s) zv = Inr b \<longrightarrow> objective s (Some xv) (Some zv) = Inr b) \<and>
   (f s = None \<and> eval (g s) (z s) = Inr b' \<longrightarrow> objective s None None = Inr b') \<and>
   (f s = Some f0 \<and> eval f0 xv = Inl m \<longrightarrow>
      objective s (Some xv) (Some zv) = Inl (External m)) \<and>
   ((f s = None \<or> f s = Some f0 \<and> eval f0 xv = Inr a) \<and> eval (g s) zv = Inl m \<longrightarrow>
      objective s (Some xv) (Some zv) = Inl (External m)) \<and>
   objective s None None = objective s (Some (x s)) (Some (z s))"
proof -
  have "objective s xo zo = Inl ValueError \<longleftrightarrow> (xo = None) \<noteq> (zo = None)"
    by (cases xo; cases zo) (simp_all add: objective_at_not_ValueError)
  then show ?thesis
    by (auto simp: objective_at_def)
qed

theorem objective_contract_witness:
  "objective objective_example (Some [1, - 2]) None = Inl ValueError \<and>
   objective objective_example None (Some [3, 4]) = Inl ValueError \<and>
   objective objective_example (Some [1, - 2]) (Some [3, 4]) \<noteq> Inl ValueError \<and>
   objective objective_example None None \<noteq> Inl ValueError \<and>
   f objective_example = Some L1Norm \<and> eval L1Norm [1, - 2] = Inr 3 \<and>
   eval (g objective_example) [3, 4] = Inr 7 \<and>
   objective objective_example (Some [1, - 2]) (Some [3, 4]) = Inr (3 + 7) \<and>
   eval L1Norm (x objective_example) = Inr 3 \<and>
   eval (g objective_example) (z objective_example) = Inr 2 \<and>
   objective objective_example None None = Inr (3 + 2) \<and>
   f (objective_example\<lparr>f := None\<rparr>) = None \<and>
   objective (objective_example\<lparr>f := None\<rparr>) (Some [1, - 2]) (Some [3, 4]) = Inr 7 \<and>
   objective (objective_example\<lparr>f := None\<rparr>) None None = Inr 2 \<and>
   eval NonNegativeIndicator [1, - 2] = Inl ''inf'' \<and>
   objective (objective_example\<lparr>f := Some NonNegativeIndicator\<rparr>) (Some [1, - 2]) (Some [3, 4]) =
     Inl (External ''inf'') \<and>
   objective (objective_example\<lparr>g := NonNegativeIndicator\<rparr>) (Some [1, - 2]) (Some [3, - 4]) =
     Inl (External ''inf'') \<and>
   objective (objective_example\<lparr>f := None, g := NonNegativeIndicator\<rparr>) (Some [1, - 2]) (Some [3, - 4]) =
     Inl (External ''inf'')"
  using objective_contract [of objective_example "Some [1, - 2]" None L1Norm "[1, - 2]" 3 "[3, 4]" 7 3 2]
    objective_contract [of objective_example None "Some [3, 4]"]
    objective_contract [of objective_example "Some [1, - 2]" "Some [3, 4]"]
    objective_contract [of objective_example None None]
    objective_contract [of "objective_example\<lparr>f := None\<rparr>" None None L1Norm "[1, - 2]" 3 "[3, 4]" 7 3 2]
    objective_contract [of "objective_example\<lparr>f := Some NonNegativeIndicator\<rparr>" None None
       NonNegativeIndicator "[1, - 2]" 0 "[3, 4]" 7 0 0 "''inf''"]
    objective_contract [of "objective_example\<lparr>g := NonNegativeIndicator\<rparr>" None None
       L1Norm "[1, - 2]" 3 "[3, - 4]" 0 0 0 "''inf''"]
    objective_contract [of "objective_example\<lparr>f := None, g := NonNegativeIndicator\<rparr>" None None
       L1Norm "[1, - 2]" 3 "[3, - 4]" 0 0 0 "''inf''"]
  by (simp add: objective_example_def scenario_defs L1Norm_def)

subsection \<open>A solver without \<open>f\<close>\<close>

text \<open>
  Claim C5. On the concrete problem after one iteration, with \<open>f\<close> absent: \<open>objective()\<close>
  returns \<open>g(z)\<close> alone, which is 0; the gradient-step point is \<open>[0, 2]\<close>; and \<open>step()\<close> raises
  an \<open>AttributeError\<close> at \<open>self.f.prox\<close>, leaving the solver as it was, where the claim has
  it set \<open>x\<close> to \<open>[0, 2]\<close>.
\<close>

theorem step_fails_without_f:
  "objective (scenario_1\<lparr>f := None\<rparr>) None None = Inr 0 \<and>
   proxarg (scenario_1\<lparr>f := None\<rparr>) = Inr [0, 2] \<and>
   step (scenario_1\<lparr>f := None\<rparr>) = Inl (AttributeError ''prox'', scenario_1\<lparr>f := None\<rparr>)"
proof -
  have p: "proxarg (scenario_1\<lparr>f := None\<rparr>) = Inr [0, 2]"
    by (simp add: proxarg_def scenario_defs arr_defs)
  show ?thesis
    unfolding step_def p
    by (simp add: objective_at_def scenario_defs)
qed

subsection \<open>The concrete problem after one iteration\<close>

text \<open>
  Claim C9, as stated, fails: after one iteration of the concrete problem \<open>x\<close> is not within
  \<open>1e-9\<close> of \<open>[0, 2]\<close>.
\<close>

theorem scenario_x_not_clamped:
  "scenario_init = Inr scenario_0 \<and> step scenario_0 = Inr scenario_1 \<and>
   \<not> within_tol (1 / 10 ^ 9) (x scenario_1) [0, 2]"
  by (simp add: scenario_init_eq step_scenario_0) (simp add: within_tol_def scenario_1_def scenario_0_def)

text \<open>
  Claim C9, amended. With \<open>C\<close> the identity on arrays of shape 2, \<open>f\<close> the zero functional,
  \<open>g\<close> the indicator of the non-negative orthant, \<open>mu = 0.5\<close>, \<open>nu = 1.0\<close> and \<open>x0 = [-1, 2]\<close>,
  after exactly one iteration of \<open>step()\<close> the primal iterate \<open>x\<close> equals \<open>[-1, 2]\<close>, within
  \<open>1e-9\<close> and exactly, and it is the split variable \<open>z\<close> that equals the clamped \<open>[0, 2]\<close>.
\<close>

theorem scenario_first_iteration:
  "scenario_init = Inr scenario_0 \<and> step scenario_0 = Inr scenario_1 \<and>
   x scenario_1 = [- 1, 2] \<and> within_tol (1 / 10 ^ 9) (x scenario_1) [- 1, 2] \<and>
   z scenario_1 = [0, 2]"
  by (simp add: scenario_init_eq step_scenario_0) (simp add: within_tol_def scenario_1_def scenario_0_def)

subsection \<open>What an iteration reads and what it leaves alone\<close>

text \<open>When \<open>step\<close> returns, and what.\<close>

lemma step_Inr_iff:
  "step s = Inr s' \<longleftrightarrow>
     (\<exists>f0 p x1 Cx z1 u1.
        proxarg s = Inr p \<and> f s = Some f0 \<and> prox f0 p (mu s) (x s) = Inr x1 \<and>
        call (C s) x1 = Inr Cx \<and>
        bind_error (arr_add Cx (u s)) (\<lambda>w. external (prox (g s) w (nu s) (z s))) = Inr z1 \<and>
        bind_error (arr_add (u s) Cx) (\<lambda>t. arr_sub t z1) = Inr u1 \<and>
        s' = s\<lparr>x := x1, z_old := z s, z := z1, u := u1\<rparr>)"
  unfolding step_def Let_def try_in_Inr_iff
  by (cases "f s") (auto simp: external_Inr_iff)


lemma proxarg_same_problem: "same_problem s t \<Longrightarrow> proxarg s = proxarg t"
  by (simp add: same_problem_def proxarg_def)

lemma step_same_problem:
  assumes "same_problem s t" and "step s = Inr s'"
  shows "\<exists>t'. step t = Inr t' \<and> same_problem s' t'"
proof -
  from assms(2) obtain f0 p x1 Cx z1 u1 where
    h: "proxarg s = Inr p" "f s = Some f0" "prox f0 p (mu s) (x s) = Inr x1"
       "call (C s) x1 = Inr Cx"
       "bind_error (arr_add Cx (u s)) (\<lambda>w. external (prox (g s) w (nu s) (z s))) = Inr z1"
       "bind_error (arr_add (u s) Cx) (\<lambda>t. arr_sub t z1) = Inr u1"
       "s' = s\<lparr>x := x1, z_old := z s, z := z1, u := u1\<rparr>"
    unfolding step_Inr_iff by blast
  have e: "f t = f s" "g t = g s" "C t = C s" "mu t = mu s" "nu t = nu s"
    "x t = x s" "z t = z s" "u t = u s" "proxarg t = proxarg s"
    using assms(1) proxarg_same_problem [OF assms(1)] by (simp_all add: same_problem_def)
  have "step t = Inr (t\<lparr>x := x1, z_old := z t, z := z1, u := u1\<rparr>)"
    unfolding step_Inr_iff e using h(1-6) by blast
  moreover have "same_problem s' (t\<lparr>x := x1, z_old := z t, z := z1, u := u1\<rparr>)"
    using h(7) assms(1) by (simp add: same_problem_def)
  ultimately show ?thesis by blast
qed

lemma step_frame:
  assumes "step s = Inr s'"
  shows "itnum s' = itnum s" and "maxiter s' = maxiter s" and "timer s' = timer s"
    and "itstat_object s' = itstat_object s" and "itstat_insert_func s' = itstat_insert_func s"
    and "f s' = f s" and "g s' = g s" and "C s' = C s" and "mu s' = mu s" and "nu s' = nu s"
    and "z_old s' = z s"
  using assms unfolding step_Inr_iff by auto

lemma step_timer_update:
  assumes "step s = Inr s'"
  shows "step (s\<lparr>timer := t\<rparr>) = Inr (s'\<lparr>timer := t\<rparr>)"
proof -
  have "proxarg (s\<lparr>timer := t\<rparr>) = proxarg s"
    by (simp add: proxarg_def)
  then show ?thesis
    using assms unfolding step_Inr_iff by auto
qed

lemma itstat_func_same_run: "same_run s t \<Longrightarrow> itstat_func s = itstat_func t"
  by (simp add: same_run_def same_problem_def itstat_func_def objective_at_def
      norm_primal_residual_def norm_dual_residual_def getattr_def view_of_def
      split: itstat_closure.splits)

lemma getattr_i: "getattr s ''i'' = Inl (AttributeError ''i'')"
  by (simp add: getattr_def)

lemma py_range_rec: "a < b \<Longrightarrow> py_range a b = a # py_range (a + 1) b"
  by (simp add: py_range_def upto_rec1)

lemma length_py_range: "length (py_range a b) = nat (b - a)"
  by (simp add: py_range_def)

lemma py_range_append:
  "a \<le> b \<Longrightarrow> b \<le> c \<Longrightarrow> py_range a c = py_range a b @ py_range b c"
  unfolding py_range_def
  by (cases "b = c") (simp_all add: upto_split1 [of a b "c - 1"])

lemma last_py_range: "a < b \<Longrightarrow> last (py_range a b) = b - 1"
  by (simp add: py_range_def upto_rec2 [of a "b - 1"])

lemma solve_loop_append:
  "solve_loop cb (ks @ ks') s =
     (case solve_loop cb ks s of Inl es \<Rightarrow> Inl es | Inr s1 \<Rightarrow> solve_loop cb ks' s1)"
  by (induction ks arbitrary: s) (auto simp: Let_def split: sum.splits option.splits)


lemma solve_loop_Cons_Inr:
  assumes "solve_loop cb (k # ks) s = Inr s'"
  obtains s1 vals tm where "step (s\<lparr>itnum := k\<rparr>) = Inr s1" and "itstat_func s1 = Inr vals"
    and "solve_loop cb ks (s1\<lparr>itstat_object := insert_stats (itstat_object s1) vals, timer := tm\<rparr>) = Inr s'"
proof (cases cb)
  case None
  with assms obtain s1 vals where a: "step (s\<lparr>itnum := k\<rparr>) = Inr s1" "itstat_func s1 = Inr vals"
    "solve_loop cb ks (s1\<lparr>itstat_object := insert_stats (itstat_object s1) vals\<rparr>) = Inr s'"
    by (auto simp: Let_def split: sum.splits)
  have "s1\<lparr>itstat_object := insert_stats (itstat_object s1) vals\<rparr> =
        s1\<lparr>itstat_object := insert_stats (itstat_object s1) vals, timer := timer s1\<rparr>"
    by simp
  with a that show ?thesis by metis
next
  case (Some c)
  with assms obtain s1 vals where a: "step (s\<lparr>itnum := k\<rparr>) = Inr s1" "itstat_func s1 = Inr vals"
    "solve_loop cb ks (s1\<lparr>itstat_object := insert_stats (itstat_object s1) vals,
        timer := start (stop (timer s1))\<rparr>) = Inr s'"
    by (auto simp: Let_def split: sum.splits option.splits)
  with that show ?thesis by blast
qed

lemma solve_loop_None_Cons:
  "solve_loop None (k # ks) s =
     (case step (s\<lparr>itnum := k\<rparr>) of
        Inl es \<Rightarrow> Inl es
      | Inr s1 \<Rightarrow>
          (case itstat_func s1 of
             Inl e \<Rightarrow> Inl (e, s1)
           | Inr vals \<Rightarrow> solve_loop None ks (s1\<lparr>itstat_object := insert_stats (itstat_object s1) vals\<rparr>)))"
  by (simp add: Let_def split: sum.splits)

lemma solve_loop_itnum:
  "solve_loop cb ks s = Inr s' \<Longrightarrow> itnum s' = (if ks = [] then itnum s else last ks)"
proof (induction ks arbitrary: s)
  case Nil
  then show ?case by simp
next
  case (Cons k ks)
  from Cons.prems obtain s1 vals tm where a: "step (s\<lparr>itnum := k\<rparr>) = Inr s1"
    "solve_loop cb ks (s1\<lparr>itstat_object := insert_stats (itstat_object s1) vals, timer := tm\<rparr>) = Inr s'"
    by (rule solve_loop_Cons_Inr)
  from Cons.IH [OF a(2)] step_frame(1) [OF a(1)] show ?case by simp
qed



lemma solve_loop_same_run:
  "solve_loop None ks s = Inr s' \<Longrightarrow> same_problem s t \<Longrightarrow>
   itstat_insert_func s = itstat_insert_func t \<Longrightarrow> (ks = [] \<Longrightarrow> itnum s = itnum t) \<Longrightarrow>
   \<exists>t'. solve_loop None ks t = Inr t' \<and> same_run s' t'"
proof (induction ks arbitrary: s t)
  case Nil
  then show ?case by (simp add: same_run_def)
next
  case (Cons k ks)
  from Cons.prems(1) obtain s1 vals where a: "step (s\<lparr>itnum := k\<rparr>) = Inr s1"
    "itstat_func s1 = Inr vals"
    "solve_loop None ks (s1\<lparr>itstat_object := insert_stats (itstat_object s1) vals\<rparr>) = Inr s'"
    by (auto simp: solve_loop_None_Cons split: sum.splits)
  have "same_problem (s\<lparr>itnum := k\<rparr>) (t\<lparr>itnum := k\<rparr>)"
    using Cons.prems(2) by (simp add: same_problem_def)
  from step_same_problem [OF this a(1)] obtain t1 where
    t1: "step (t\<lparr>itnum := k\<rparr>) = Inr t1" "same_problem s1 t1" by blast
  have r: "same_run s1 t1"
    using t1(2) step_frame(1,5) [OF a(1)] step_frame(1,5) [OF t1(1)] Cons.prems(3)
    by (simp add: same_run_def)
  then have v: "itstat_func t1 = Inr vals"
    using a(2) itstat_func_same_run by simp
  let ?s2 = "s1\<lparr>itstat_object := insert_stats (itstat_object s1) vals\<rparr>"
  let ?t2 = "t1\<lparr>itstat_object := insert_stats (itstat_object t1) vals\<rparr>"
  have "same_problem ?s2 ?t2" "itstat_insert_func ?s2 = itstat_insert_func ?t2" "itnum ?s2 = itnum ?t2"
    using r by (simp_all add: same_run_def same_problem_def)
  from Cons.IH [OF a(3) this(1,2)] this(3) obtain t' where
    "solve_loop None ks ?t2 = Inr t'" "same_run s' t'" by blast
  then show ?case
    using t1(1) v by (simp add: solve_loop_None_Cons)
qed


subsection \<open>The concrete problem, solved\<close>

lemma py_range_0_1: "py_range 0 1 = [0]"
  by (simp add: py_range_def)

lemma py_range_1_2: "py_range 1 2 = [1]"
  by (simp add: py_range_def upto_rec1)


lemma scenario_noeval_init:
  "LinearizedADMM_init (Some ZeroFunctional) (NonNegativeIndicator\<lparr>has_eval := False\<rparr>) (Identity 2)
     (1 / 2) 1 (Some [- 1, 2]) 100 False None = Inr scenario_noeval_0"
  by (simp add: scenario_noeval_0_def scenario_0_def LinearizedADMM_init_def z_init_def u_init_def
      Identity_def NonNegativeIndicator_def zeros_def Timer_init_def IterationStats_init_def
      numeral_2_eq_2 Let_def)

lemma scenario_noeval_step: "step scenario_noeval_0 = Inr scenario_noeval_1"
  by (simp add: scenario_noeval_0_def scenario_noeval_1_def scenario_defs step_def proxarg_def
      arr_defs Let_def)

lemma init_itstat_insert_func:
  assumes "LinearizedADMM_init f0 g0 C0 mu0 nu0 x0 maxiter0 verbose0 None = Inr s0"
  shows "itstat_insert_func s0 =
    (if has_eval g0 then Itstat_with_objective else Itstat_without_objective)"
  using assms
  by (auto simp: LinearizedADMM_init_def Let_def bind_error_Inr_iff split: if_splits)

subsection \<open>Solvers whose iterations return\<close>

lemma broadcast2_same_length:
  "length a = length b \<Longrightarrow> \<exists>c. broadcast2 h a b = Inr c \<and> length c = length b"
  by (simp add: broadcast2_def)

lemma arr_add_same_length: "length a = length b \<Longrightarrow> \<exists>c. arr_add a b = Inr c \<and> length c = length b"
  unfolding arr_add_def by (rule broadcast2_same_length)

lemma arr_sub_same_length: "length a = length b \<Longrightarrow> \<exists>c. arr_sub a b = Inr c \<and> length c = length b"
  unfolding arr_sub_def by (rule broadcast2_same_length)

lemma length_arr_scale: "length (arr_scale c a) = length a"
  by (simp add: arr_scale_def)

lemma proxarg_returns:
  assumes "well_posed s"
  shows "\<exists>p. proxarg s = Inr p \<and> length p = input_shape (C s)"
proof -
  let ?n = "input_shape (C s)" and ?m = "output_shape (C s)"
  from assms obtain Cx where Cx: "call (C s) (x s) = Inr Cx" "length Cx = ?m"
    unfolding well_posed_def by blast
  from arr_sub_same_length [of Cx "z s"] assms Cx(2) obtain d where
    d: "arr_sub Cx (z s) = Inr d" "length d = ?m"
    unfolding well_posed_def by auto
  from arr_add_same_length [of d "u s"] assms d(2) obtain r where
    r: "arr_add d (u s) = Inr r" "length r = ?m"
    unfolding well_posed_def by auto
  from assms r(2) obtain a where a: "adjoint (C s) r = Inr a" "length a = ?n"
    unfolding well_posed_def by blast
  have "length (x s) = length (arr_scale (mu s / nu s) a)"
    using assms a(2) by (simp add: well_posed_def length_arr_scale)
  from arr_sub_same_length [OF this] obtain p where
    p: "arr_sub (x s) (arr_scale (mu s / nu s) a) = Inr p" "length p = ?n"
    using a(2) by (auto simp: length_arr_scale)
  have "nu s \<noteq> 0"
    using assms by (simp add: well_posed_def)
  then show ?thesis
    using Cx d r a p by (simp add: proxarg_def)
qed

lemma step_returns:
  assumes "well_posed s"
  shows "\<exists>s'. step s = Inr s' \<and> well_posed s'"
proof -
  let ?n = "input_shape (C s)" and ?m = "output_shape (C s)"
  have sh: "length (x s) = ?n" "length (z s) = ?m" "length (u s) = ?m"
    using assms by (simp_all add: well_posed_def)
  from proxarg_returns [OF assms] obtain p where p: "proxarg s = Inr p" "length p = ?n"
    by blast
  from assms obtain f0 where f0: "f s = Some f0"
    and pf: "\<And>v lam v0. length v = ?n \<Longrightarrow> length v0 = ?n \<Longrightarrow>
       \<exists>w. prox f0 v lam v0 = Inr w \<and> length w = ?n"
    unfolding well_posed_def by blast
  from pf [OF p(2) sh(1)] obtain x1 where x1: "prox f0 p (mu s) (x s) = Inr x1" "length x1 = ?n"
    by blast
  from assms x1(2) obtain Cx where Cx: "call (C s) x1 = Inr Cx" "length Cx = ?m"
    unfolding well_posed_def by blast
  from arr_add_same_length [of Cx "u s"] Cx(2) sh(3) obtain w where
    w: "arr_add Cx (u s) = Inr w" "length w = ?m"
    by auto
  from assms w(2) sh(2) obtain z1 where z1: "prox (g s) w (nu s) (z s) = Inr z1" "length z1 = ?m"
    unfolding well_posed_def by blast
  from arr_add_same_length [of "u s" Cx] Cx(2) sh(3) obtain t where
    t: "arr_add (u s) Cx = Inr t" "length t = ?m"
    by auto
  from arr_sub_same_length [of t z1] t(2) z1(2) obtain u1 where
    u1: "arr_sub t z1 = Inr u1" "length u1 = ?m"
    by auto
  let ?s' = "s\<lparr>x := x1, z_old := z s, z := z1, u := u1\<rparr>"
  have "step s = Inr ?s'"
    unfolding step_Inr_iff using p(1) f0 x1(1) Cx(1) w(1) z1(1) t(1) u1(1) by simp
  moreover have "well_posed ?s'"
    using assms x1(2) z1(2) u1(2) sh(2) by (simp add: well_posed_def)
  ultimately show ?thesis by blast
qed

lemma itstat_func_returns:
  assumes "well_posed s" and "statistics_posed s"
  shows "\<exists>vals. itstat_func s = Inr vals"
proof (cases "itstat_insert_func s")
  case Itstat_with_objective
  from assms(1) obtain f0 where f0: "f s = Some f0"
    unfolding well_posed_def by blast
  from assms(2) Itstat_with_objective f0 obtain a b where
    ev: "eval f0 (x s) = Inr a" "eval (g s) (z s) = Inr b"
    unfolding statistics_posed_def by (simp split: itstat_closure.splits) metis
  from assms(1) obtain Cx where Cx: "call (C s) (x s) = Inr Cx" "length Cx = output_shape (C s)"
    unfolding well_posed_def by blast
  from arr_sub_same_length [of Cx "z s"] assms(1) Cx(2) obtain d where
    d: "arr_sub Cx (z s) = Inr d"
    unfolding well_posed_def by auto
  from arr_sub_same_length [of "z s" "z_old s"] assms(1) obtain d2 where
    d2: "arr_sub (z s) (z_old s) = Inr d2" "length d2 = output_shape (C s)"
    unfolding well_posed_def by auto
  from assms(1) d2(2) obtain a2 where a2: "adjoint (C s) d2 = Inr a2"
    unfolding well_posed_def by blast
  show ?thesis
    using Itstat_with_objective f0 ev Cx(1) d d2(1) a2
    by (simp add: itstat_func_def objective_at_def norm_primal_residual_def norm_dual_residual_def)
next
  case Itstat_without_objective
  with assms(2) show ?thesis
    by (simp add: statistics_posed_def)
next
  case (Itstat_custom h)
  with assms(2) obtain vals where "h (view_of s) = Inr vals"
    unfolding statistics_posed_def by (simp split: itstat_closure.splits) metis
  with Itstat_custom show ?thesis
    by (simp add: itstat_func_def)
qed

lemma statistics_posed_cong:
  "f t = f s \<Longrightarrow> g t = g s \<Longrightarrow> itstat_insert_func t = itstat_insert_func s \<Longrightarrow>
   statistics_posed s \<Longrightarrow> statistics_posed t"
  by (simp add: statistics_posed_def cong: itstat_closure.case_cong)

lemma solve_loop_returns:
  "well_posed s \<Longrightarrow> statistics_posed s \<Longrightarrow> callback_returns cb \<Longrightarrow>
   \<exists>s'. solve_loop cb ks s = Inr s' \<and> well_posed s' \<and> statistics_posed s'"
proof (induction ks arbitrary: s)
  case Nil
  then show ?case by simp
next
  case (Cons k ks)
  let ?s0 = "s\<lparr>itnum := k\<rparr>"
  have "well_posed ?s0"
    using Cons.prems(1) by (simp add: well_posed_def)
  from step_returns [OF this] obtain s1 where s1: "step ?s0 = Inr s1" "well_posed s1"
    by blast
  have sp0: "statistics_posed ?s0"
    using Cons.prems(2) by (rule statistics_posed_cong [rotated 3]) simp_all
  have sp1: "statistics_posed s1"
    using step_frame(6,7,5) [OF s1(1)] sp0 by (rule statistics_posed_cong)
  from itstat_func_returns [OF s1(2) sp1] obtain vals where vals: "itstat_func s1 = Inr vals"
    by blast
  let ?s2 = "s1\<lparr>itstat_object := insert_stats (itstat_object s1) vals\<rparr>"
  have w2: "well_posed ?s2"
    using s1(2) by (simp add: well_posed_def)
  have sp2: "statistics_posed ?s2"
    using sp1 by (rule statistics_posed_cong [rotated 3]) simp_all
  show ?case
  proof (cases cb)
    case None
    from Cons.IH [OF w2 sp2 Cons.prems(3)] show ?thesis
      using s1(1) vals None by (simp add: Let_def)
  next
    case (Some c)
    let ?s3 = "?s2\<lparr>timer := stop (timer ?s2)\<rparr>"
    let ?s4 = "?s3\<lparr>timer := start (timer ?s3)\<rparr>"
    have c: "c ?s3 = None"
      using Cons.prems(3) Some by (simp add: callback_returns_def)
    have w4: "well_posed ?s4"
      using w2 by (simp add: well_posed_def)
    have sp4: "statistics_posed ?s4"
      using sp2 by (rule statistics_posed_cong [rotated 3]) simp_all
    from Cons.IH [OF w4 sp4 Cons.prems(3)] show ?thesis
      using s1(1) vals Some c by (simp add: Let_def)
  qed
qed

lemma solve_returns:
  assumes "well_posed s" and "statistics_posed s" and "callback_returns cb"
  shows "\<exists>s' xr. solve s cb = Inr (s', xr) \<and> well_posed s' \<and> statistics_posed s'"
proof -
  let ?s0 = "s\<lparr>timer := start (timer s)\<rparr>"
  have w0: "well_posed ?s0"
    using assms(1) by (simp add: well_posed_def)
  have sp0: "statistics_posed ?s0"
    using assms(2) by (rule statistics_posed_cong [rotated 3]) simp_all
  from solve_loop_returns [OF w0 sp0 assms(3)] obtain r where
    r: "solve_loop cb (py_range (itnum s) (itnum s + maxiter s)) ?s0 = Inr r"
    "well_posed r" "statistics_posed r"
    by blast
  let ?s' = "r\<lparr>timer := stop (timer r), itnum := itnum r + 1\<rparr>"
  have "well_posed ?s'"
    using r(2) by (simp add: well_posed_def)
  moreover have "statistics_posed ?s'"
    using r(3) by (rule statistics_posed_cong [rotated 3]) simp_all
  moreover have "solve s cb = Inr (?s', x ?s')"
    using r(1) by (simp add: solve_def Let_def)
  ultimately show ?thesis by blast
qed

lemma well_posed_scenario_counting: "well_posed scenario_counting"
  by (simp add: well_posed_def scenario_counting_def scenario_defs)

lemma statistics_posed_scenario_counting: "statistics_posed scenario_counting"
  by (simp add: statistics_posed_def scenario_counting_def scenario_defs)

lemma scenario_counting_solve_first:
  "solve (scenario_counting\<lparr>maxiter := 1\<rparr>) None = Inr (scenario_counting_first, [- 1, 2])"
  by (simp add: solve_def scenario_counting_def scenario_counting_first_def scenario_defs
      py_range_0_1 solver_defs arr_defs view_of_def)

lemma scenario_counting_solve_second:
  "solve (scenario_counting_first\<lparr>maxiter := 1\<rparr>) None =
     Inr (scenario_counting_solved\<lparr>maxiter := 1\<rparr>, [0, 2])"
  by (simp add: solve_def scenario_counting_def scenario_counting_first_def
      scenario_counting_solved_def scenario_defs py_range_1_2 solver_defs arr_defs view_of_def)


subsection \<open>One iteration\<close>

text \<open>
  Claim C1. One call of \<open>step()\<close> on a solver whose \<open>f\<close> is present and whose \<open>nu\<close> is not
  zero, every operation of the collaborators and of the array arithmetic returning: with
  \<open>r = C(x) - z + u\<close> and \<open>p = x - (mu / nu) * adjoint(C)(r)\<close>, the new \<open>x\<close> is the prox
  of \<open>f\<close> with step \<open>mu\<close> at \<open>p\<close>, warm-started from the old \<open>x\<close>; \<open>z_old\<close> is the old \<open>z\<close>;
  with \<open>Cx = C(x)\<close> at the new \<open>x\<close>, the new \<open>z\<close> is the prox of \<open>g\<close> with step \<open>nu\<close> at
  \<open>Cx + u\<close>, warm-started from the old \<open>z\<close>; the new \<open>u\<close> is \<open>u + Cx - z\<close> with the new \<open>z\<close>.
  No other attribute changes: the counter, the timer and the iteration statistics are those
  of before. On a well-posed solver all these operations do return, and the solver that
  \<open>step()\<close> leaves is well posed again.
\<close>

theorem step_update_sequence:
  "(well_posed s \<longrightarrow> (\<exists>s'. step s = Inr s' \<and> well_posed s')) \<and>
   (nu s \<noteq> 0 \<and> f s = Some f0 \<and>
    call (C s) (x s) = Inr Cx0 \<and> arr_sub Cx0 (z s) = Inr d \<and> arr_add d (u s) = Inr r \<and>
    adjoint (C s) r = Inr a \<and> arr_sub (x s) (arr_scale (mu s / nu s) a) = Inr p \<and>
    prox f0 p (mu s) (x s) = Inr x1 \<and>
    call (C s) x1 = Inr Cx \<and> arr_add Cx (u s) = Inr w \<and>
    prox (g s) w (nu s) (z s) = Inr z1 \<and>
    arr_add (u s) Cx = Inr t \<and> arr_sub t z1 = Inr u1 \<longrightarrow>
      step s = Inr (s\<lparr>x := x1, z_old := z s, z := z1, u := u1\<rparr>))"
proof (rule conjI; rule impI)
  assume "well_posed s"
  then show "\<exists>s'. step s = Inr s' \<and> well_posed s'"
    by (rule step_returns)
next
  assume asm: "nu s \<noteq> 0 \<and> f s = Some f0 \<and>
    call (C s) (x s) = Inr Cx0 \<and> arr_sub Cx0 (z s) = Inr d \<and> arr_add d (u s) = Inr r \<and>
    adjoint (C s) r = Inr a \<and> arr_sub (x s) (arr_scale (mu s / nu s) a) = Inr p \<and>
    prox f0 p (mu s) (x s) = Inr x1 \<and>
    call (C s) x1 = Inr Cx \<and> arr_add Cx (u s) = Inr w \<and>
    prox (g s) w (nu s) (z s) = Inr z1 \<and>
    arr_add (u s) Cx = Inr t \<and> arr_sub t z1 = Inr u1"
  then have "proxarg s = Inr p"
    by (simp add: proxarg_def)
  with asm show "step s = Inr (s\<lparr>x := x1, z_old := z s, z := z1, u := u1\<rparr>)"
    by (simp add: step_def Let_def)
qed

lemma well_posed_scenario_1: "well_posed scenario_1"
  by (simp add: well_posed_def scenario_defs)

theorem step_update_sequence_witness:
  "well_posed scenario_1 \<and> nu scenario_1 \<noteq> 0 \<and> f scenario_1 = Some ZeroFunctional \<and>
   call (C scenario_1) (x scenario_1) = Inr [- 1, 2] \<and>
   arr_sub [- 1, 2] (z scenario_1) = Inr [- 1, 0] \<and>
   arr_add [- 1, 0] (u scenario_1) = Inr [- 2, 0] \<and>
   adjoint (C scenario_1) [- 2, 0] = Inr [- 2, 0] \<and>
   arr_sub (x scenario_1) (arr_scale (mu scenario_1 / nu scenario_1) [- 2, 0]) = Inr [0, 2] \<and>
   prox ZeroFunctional [0, 2] (mu scenario_1) (x scenario_1) = Inr [0, 2] \<and>
   call (C scenario_1) [0, 2] = Inr [0, 2] \<and>
   arr_add [0, 2] (u scenario_1) = Inr [- 1, 2] \<and>
   prox (g scenario_1) [- 1, 2] (nu scenario_1) (z scenario_1) = Inr [0, 2] \<and>
   arr_add (u scenario_1) [0, 2] = Inr [- 1, 2] \<and>
   arr_sub [- 1, 2] [0, 2] = Inr [- 1, 0] \<and>
   step scenario_1 = Inr (scenario_1\<lparr>x := [0, 2], z_old := z scenario_1, z := [0, 2], u := [- 1, 0]\<rparr>) \<and>
   well_posed (scenario_1\<lparr>x := [0, 2], z_old := z scenario_1, z := [0, 2], u := [- 1, 0]\<rparr>)"
proof -
  have h: "nu scenario_1 \<noteq> 0 \<and> f scenario_1 = Some ZeroFunctional \<and>
   call (C scenario_1) (x scenario_1) = Inr [- 1, 2] \<and>
   arr_sub [- 1, 2] (z scenario_1) = Inr [- 1, 0] \<and>
   arr_add [- 1, 0] (u scenario_1) = Inr [- 2, 0] \<and>
   adjoint (C scenario_1) [- 2, 0] = Inr [- 2, 0] \<and>
   arr_sub (x scenario_1) (arr_scale (mu scenario_1 / nu scenario_1) [- 2, 0]) = Inr [0, 2] \<and>
   prox ZeroFunctional [0, 2] (mu scenario_1) (x scenario_1) = Inr [0, 2] \<and>
   call (C scenario_1) [0, 2] = Inr [0, 2] \<and>
   arr_add [0, 2] (u scenario_1) = Inr [- 1, 2] \<and>
   prox (g scenario_1) [- 1, 2] (nu scenario_1) (z scenario_1) = Inr [0, 2] \<and>
   arr_add (u scenario_1) [0, 2] = Inr [- 1, 2] \<and>
   arr_sub [- 1, 2] [0, 2] = Inr [- 1, 0]"
    by (simp add: scenario_defs arr_defs)
  from step_update_sequence [of scenario_1 ZeroFunctional "[- 1, 2]" "[- 1, 0]" "[- 2, 0]" "[- 2, 0]"
      "[0, 2]" "[0, 2]" "[0, 2]" "[- 1, 2]" "[0, 2]" "[- 1, 2]" "[- 1, 0]"] h well_posed_scenario_1
  have "step scenario_1 = Inr (scenario_1\<lparr>x := [0, 2], z_old := z scenario_1, z := [0, 2], u := [- 1, 0]\<rparr>)"
    and "\<exists>s'. step scenario_1 = Inr s' \<and> well_posed s'"
    by blast+
  with h well_posed_scenario_1 show ?thesis
    by auto
qed

subsection \<open>The iteration counter\<close>

lemma solve_Inr:
  assumes "solve s cb = Inr (s', xr)"
  obtains r where
    "solve_loop cb (py_range (itnum s) (itnum s + maxiter s)) (s\<lparr>timer := start (timer s)\<rparr>) = Inr r"
    and "s' = r\<lparr>timer := stop (timer r), itnum := itnum r + 1\<rparr>" and "xr = x r"
  using assms by (auto simp: solve_def Let_def split: sum.splits)



subsection \<open>Resuming\<close>

text \<open>
  Claim C7. From the same initial solver, a call of \<open>solve()\<close> with budget \<open>m1 \<ge> 1\<close> followed
  by a call with budget \<open>m2 \<ge> 1\<close>, both returning, and a single call with budget \<open>m1 + m2\<close>:
  the single call returns too, it returns the same array, and it leaves the same \<open>x\<close>, \<open>z\<close>,
  \<open>z_old\<close>, \<open>u\<close> and \<open>itnum\<close>. The two calls do return when the solver is well posed and
  its statistics function returns. The operator, the functionals and the statistics function
  are functions of their arguments, which is the determinism the claim asks for.
\<close>

theorem solve_resumable:
  "(well_posed s \<and> statistics_posed s \<longrightarrow>
      (\<exists>t1 y1 t2 y2. solve (s\<lparr>maxiter := m1\<rparr>) None = Inr (t1, y1) \<and>
         solve (t1\<lparr>maxiter := m2\<rparr>) None = Inr (t2, y2))) \<and>
   (1 \<le> m1 \<and> 1 \<le> m2 \<and> solve (s\<lparr>maxiter := m1\<rparr>) None = Inr (s1, r1) \<and>
    solve (s1\<lparr>maxiter := m2\<rparr>) None = Inr (s2, r2) \<longrightarrow>
      (\<exists>s3. solve (s\<lparr>maxiter := m1 + m2\<rparr>) None = Inr (s3, r2) \<and>
         x s3 = x s2 \<and> z s3 = z s2 \<and> z_old s3 = z_old s2 \<and> u s3 = u s2 \<and> itnum s3 = itnum s2))"
proof (rule conjI; rule impI)
  assume wp: "well_posed s \<and> statistics_posed s"
  have cb: "callback_returns None"
    by (simp add: callback_returns_def)
  have "well_posed (s\<lparr>maxiter := m1\<rparr>)"
    using wp by (simp add: well_posed_def)
  moreover have "statistics_posed (s\<lparr>maxiter := m1\<rparr>)"
    using wp by (elim conjE) (rule statistics_posed_cong [rotated 3], simp_all)
  ultimately obtain t1 y1 where
    t1: "solve (s\<lparr>maxiter := m1\<rparr>) None = Inr (t1, y1)" "well_posed t1" "statistics_posed t1"
    using solve_returns [OF _ _ cb] by blast
  have "well_posed (t1\<lparr>maxiter := m2\<rparr>)"
    using t1(2) by (simp add: well_posed_def)
  moreover have "statistics_posed (t1\<lparr>maxiter := m2\<rparr>)"
    using t1(3) by (rule statistics_posed_cong [rotated 3]) simp_all
  ultimately obtain t2 y2 where "solve (t1\<lparr>maxiter := m2\<rparr>) None = Inr (t2, y2)"
    using solve_returns [OF _ _ cb] by blast
  with t1(1) show "\<exists>t1 y1 t2 y2. solve (s\<lparr>maxiter := m1\<rparr>) None = Inr (t1, y1) \<and>
      solve (t1\<lparr>maxiter := m2\<rparr>) None = Inr (t2, y2)"
    by blast
next
  assume "1 \<le> m1 \<and> 1 \<le> m2 \<and> solve (s\<lparr>maxiter := m1\<rparr>) None = Inr (s1, r1) \<and>
    solve (s1\<lparr>maxiter := m2\<rparr>) None = Inr (s2, r2)"
  then have asm: "1 \<le> m1" "1 \<le> m2" "solve (s\<lparr>maxiter := m1\<rparr>) None = Inr (s1, r1)"
    "solve (s1\<lparr>maxiter := m2\<rparr>) None = Inr (s2, r2)"
    by simp_all
  let ?a = "itnum s"
  from asm(3) obtain q1 where
    q1: "solve_loop None (py_range ?a (?a + m1)) (s\<lparr>maxiter := m1, timer := start (timer s)\<rparr>) = Inr q1"
    and s1: "s1 = q1\<lparr>timer := stop (timer q1), itnum := itnum q1 + 1\<rparr>"
    by (rule solve_Inr) simp
  have "py_range ?a (?a + m1) \<noteq> []"
    using asm(1) length_py_range [of ?a "?a + m1"] by auto
  then have "itnum q1 = ?a + m1 - 1"
    using solve_loop_itnum [OF q1] asm(1) by (simp add: last_py_range)
  then have i1: "itnum s1 = ?a + m1"
    by (simp add: s1)
  from asm(4) obtain q2 where
    q2: "solve_loop None (py_range (?a + m1) (?a + m1 + m2))
           (s1\<lparr>maxiter := m2, timer := start (timer s1)\<rparr>) = Inr q2"
    and s2: "s2 = q2\<lparr>timer := stop (timer q2), itnum := itnum q2 + 1\<rparr>" and r2: "r2 = x q2"
    by (rule solve_Inr) (simp add: i1)
  let ?S = "s\<lparr>maxiter := m1 + m2, timer := start (timer s)\<rparr>"
  have "same_problem (s\<lparr>maxiter := m1, timer := start (timer s)\<rparr>) ?S"
    "itstat_insert_func (s\<lparr>maxiter := m1, timer := start (timer s)\<rparr>) = itstat_insert_func ?S"
    "itnum (s\<lparr>maxiter := m1, timer := start (timer s)\<rparr>) = itnum ?S"
    by (simp_all add: same_problem_def)
  from solve_loop_same_run [OF q1 this(1,2)] this(3) obtain p1 where
    p1: "solve_loop None (py_range ?a (?a + m1)) ?S = Inr p1" "same_run q1 p1"
    by blast
  have ne: "py_range (?a + m1) (?a + m1 + m2) \<noteq> []"
    using asm(2) length_py_range [of "?a + m1" "?a + m1 + m2"] by auto
  have "same_problem (s1\<lparr>maxiter := m2, timer := start (timer s1)\<rparr>) p1"
    "itstat_insert_func (s1\<lparr>maxiter := m2, timer := start (timer s1)\<rparr>) = itstat_insert_func p1"
    using p1(2) by (simp_all add: s1 same_run_def same_problem_def)
  from solve_loop_same_run [OF q2 this] ne obtain p2 where
    p2: "solve_loop None (py_range (?a + m1) (?a + m1 + m2)) p1 = Inr p2" "same_run q2 p2"
    by blast
  have "py_range ?a (?a + (m1 + m2)) = py_range ?a (?a + m1) @ py_range (?a + m1) (?a + m1 + m2)"
    using asm(1,2) py_range_append [of ?a "?a + m1" "?a + m1 + m2"] by (simp add: add.assoc)
  then have "solve_loop None (py_range ?a (?a + (m1 + m2))) ?S = Inr p2"
    using p1(1) p2(1) by (simp add: solve_loop_append)
  then have "solve (s\<lparr>maxiter := m1 + m2\<rparr>) None =
      Inr (p2\<lparr>timer := stop (timer p2), itnum := itnum p2 + 1\<rparr>, x p2)"
    by (simp add: solve_def Let_def)
  then show "\<exists>s3. solve (s\<lparr>maxiter := m1 + m2\<rparr>) None = Inr (s3, r2) \<and>
      x s3 = x s2 \<and> z s3 = z s2 \<and> z_old s3 = z_old s2 \<and> u s3 = u s2 \<and> itnum s3 = itnum s2"
    using p2(2) by (simp add: s2 r2 same_run_def same_problem_def)
qed

theorem solve_resumable_witness:
  "well_posed scenario_counting \<and> statistics_posed scenario_counting \<and> (1::int) \<le> 1 \<and>
   solve (scenario_counting\<lparr>maxiter := 1\<rparr>) None = Inr (scenario_counting_first, [- 1, 2]) \<and>
   solve (scenario_counting_first\<lparr>maxiter := 1\<rparr>) None =
     Inr (scenario_counting_solved\<lparr>maxiter := 1\<rparr>, [0, 2]) \<and>
   (\<exists>s3. solve (scenario_counting\<lparr>maxiter := 1 + 1\<rparr>) None = Inr (s3, [0, 2]) \<and>
         x s3 = x (scenario_counting_solved\<lparr>maxiter := 1\<rparr>) \<and>
         z s3 = z (scenario_counting_solved\<lparr>maxiter := 1\<rparr>) \<and>
         z_old s3 = z_old (scenario_counting_solved\<lparr>maxiter := 1\<rparr>) \<and>
         u s3 = u (scenario_counting_solved\<lparr>maxiter := 1\<rparr>) \<and>
         itnum s3 = itnum (scenario_counting_solved\<lparr>maxiter := 1\<rparr>))"
proof -
  have h: "(1::int) \<le> 1"
    by simp
  show ?thesis
    using solve_resumable [of scenario_counting 1 1 scenario_counting_first "[- 1, 2]"
        "scenario_counting_solved\<lparr>maxiter := 1\<rparr>" "[0, 2]"]
      h well_posed_scenario_counting statistics_posed_scenario_counting
      scenario_counting_solve_first scenario_counting_solve_second
    by blast
qed

subsection \<open>The default statistics of a \<open>g\<close> that cannot be evaluated\<close>

text \<open>
  Claim C10. Let a solver be constructed with \<open>itstat = None\<close> and a \<open>g\<close> whose \<open>has_eval\<close> is
  false. The statistics function stored at construction is the one that reads \<open>obj.i\<close>, an
  attribute that no solver has. In any later state of that solver, with a budget of at least
  one iteration and a first \<open>step()\<close> that returns, every call of \<open>solve()\<close> raises an
  \<open>AttributeError\<close> for \<open>i\<close> when it computes the statistics of its first iteration, and
  the solver it leaves is the one after that \<open>step()\<close>, with the timer running.
\<close>

theorem default_statistics_read_missing_attribute:
  assumes "LinearizedADMM_init f0 g0 C0 mu0 nu0 x0 maxiter0 verbose0 None = Inr s0"
    and "\<not> has_eval g0"
    and "itstat_insert_func s = itstat_insert_func s0"
    and "1 \<le> maxiter s"
    and "step s = Inr s1"
  shows "itstat_insert_func s0 = Itstat_without_objective \<and>
         getattr s1 ''i'' = Inl (AttributeError ''i'') \<and>
         itstat_func s1 = Inl (AttributeError ''i'') \<and>
         solve s callback = Inl (AttributeError ''i'', s1\<lparr>timer := start (timer s)\<rparr>)"
proof -
  have a: "itstat_insert_func s0 = Itstat_without_objective"
    using init_itstat_insert_func [OF assms(1)] assms(2) by simp
  let ?s1 = "s1\<lparr>timer := start (timer s)\<rparr>"
  have i: "itstat_insert_func ?s1 = Itstat_without_objective"
    using step_frame(5) [OF assms(5)] assms(3) a by simp
  then have b: "itstat_func ?s1 = Inl (AttributeError ''i'')"
    by (simp add: itstat_func_def getattr_i)
  have "itstat_insert_func s1 = Itstat_without_objective"
    using i by simp
  then have c: "itstat_func s1 = Inl (AttributeError ''i'')"
    by (simp add: itstat_func_def getattr_i)
  have st: "step (s\<lparr>timer := start (timer s)\<rparr>) = Inr ?s1"
    using assms(5) by (rule step_timer_update)
  have "itnum s < itnum s + maxiter s"
    using assms(4) by simp
  then have "py_range (itnum s) (itnum s + maxiter s) =
      itnum s # py_range (itnum s + 1) (itnum s + maxiter s)"
    by (rule py_range_rec)
  then have "solve s callback = Inl (AttributeError ''i'', ?s1)"
    using st b by (simp add: solve_def Let_def)
  with a c show ?thesis
    by (simp add: getattr_i)
qed

theorem default_statistics_read_missing_attribute_witness:
  "LinearizedADMM_init (Some ZeroFunctional) (NonNegativeIndicator\<lparr>has_eval := False\<rparr>) (Identity 2)
     (1 / 2) 1 (Some [- 1, 2]) 100 False None = Inr scenario_noeval_0 \<and>
   \<not> has_eval (NonNegativeIndicator\<lparr>has_eval := False\<rparr>) \<and>
   1 \<le> maxiter scenario_noeval_0 \<and>
   step scenario_noeval_0 = Inr scenario_noeval_1 \<and>
   solve scenario_noeval_0 None =
     Inl (AttributeError ''i'', scenario_noeval_1\<lparr>timer := start (timer scenario_noeval_0)\<rparr>)"
proof -
  have h: "\<not> has_eval (NonNegativeIndicator\<lparr>has_eval := False\<rparr>)"
    "itstat_insert_func scenario_noeval_0 = itstat_insert_func scenario_noeval_0"
    "1 \<le> maxiter scenario_noeval_0"
    by (simp_all add: scenario_noeval_0_def scenario_0_def)
  show ?thesis
    using default_statistics_read_missing_attribute
      [OF scenario_noeval_init h scenario_noeval_step, of None]
      scenario_noeval_init h scenario_noeval_step
    by blast
qed

subsection \<open>\<open>z_old\<close> is a copy\<close>

lemma ids_ok_init: "ids_ok (init_ids r)"
  by (cases r) (simp_all add: init_ids_def ids_ok_def)

lemma assign_x_ok: "ids_ok i \<Longrightarrow> ids_ok (assign_x al i) \<and> next_id i \<le> next_id (assign_x al i)"
  unfolding assign_x_def ids_ok_def
  by (cases "of_C_x al"; cases "of_adjoint al"; cases "of_f_prox al") (simp_all)

lemma assign_z_old_ok:
  "ids_ok i \<Longrightarrow> x_id (assign_z_old i) < next_id (assign_z_old i) \<and>
     z_id (assign_z_old i) < z_old_id (assign_z_old i) \<and>
     Suc (z_old_id (assign_z_old i)) = next_id (assign_z_old i) \<and>
     u_id (assign_z_old i) < next_id (assign_z_old i)"
  by (simp add: assign_z_old_def ids_ok_def)

lemma assign_z_old_ids_ok: "ids_ok i \<Longrightarrow> ids_ok (assign_z_old i)"
  by (auto simp: assign_z_old_def ids_ok_def)

lemma assign_z_ok:
  assumes "x_id i < next_id i" and "z_id i < z_old_id i" and "Suc (z_old_id i) = next_id i"
    and "u_id i < next_id i"
  shows "ids_ok (assign_z al i)"
  using assms unfolding assign_z_def ids_ok_def
  by (cases "of_C_x1 al"; cases "of_g_prox al") (simp_all)

lemma assign_u_ok: "ids_ok i \<Longrightarrow> ids_ok (assign_u i)"
  by (simp add: assign_u_def ids_ok_def)


lemma step_obj_outcome:
  assumes "ids_ok i"
  shows "case step_obj al (s, i) of
           Inl (e, (s', i')) \<Rightarrow> step s = Inl (e, s') \<and> ids_ok i'
         | Inr (s', i') \<Rightarrow> step s = Inr s' \<and> ids_ok i' \<and> next_id i \<le> z_old_id i'"
proof -
  let ?i1 = "assign_x al i"
  let ?i2 = "assign_z_old ?i1"
  let ?i3 = "assign_z al ?i2"
  have 1: "ids_ok ?i1" "next_id i \<le> next_id ?i1"
    using assign_x_ok [OF assms] by simp_all
  have 2: "ids_ok ?i2"
    using 1(1) by (rule assign_z_old_ids_ok)
  have 3: "ids_ok ?i3"
    using assign_z_old_ok [OF 1(1)] by (intro assign_z_ok) simp_all
  have 4: "ids_ok (assign_u ?i3)"
    using 3 by (rule assign_u_ok)
  have 5: "next_id i \<le> z_old_id (assign_u ?i3)"
    using 1(2) by (simp add: assign_u_def assign_z_def assign_z_old_def split: prod.splits)
  show ?thesis
    using assms 2 3 4 5
    by (simp add: step_obj_def step_def try_in_case Let_def split: sum.splits option.splits)
qed

lemma reachable_ids_ok: "reachable si \<Longrightarrow> ids_ok (snd si)"
proof (induction rule: reachable.induct)
  case (constructed f0 g0 C0 mu0 nu0 x0 maxiter0 verbose0 itstat s r)
  show ?case by (simp add: ids_ok_init)
next
  case (stepped si al si')
  obtain s i where si: "si = (s, i)" by (cases si)
  obtain s' i' where si': "si' = (s', i')" by (cases si')
  have "ids_ok i"
    using stepped.IH by (simp add: si)
  from step_obj_outcome [OF this, where al = al and s = s] stepped.hyps(2)
  show ?case by (simp add: si si')
next
  case (step_raised si al e si')
  obtain s i where si: "si = (s, i)" by (cases si)
  obtain s' i' where si': "si' = (s', i')" by (cases si')
  have "ids_ok i"
    using step_raised.IH by (simp add: si)
  from step_obj_outcome [OF this, where al = al and s = s] step_raised.hyps(2)
  show ?case by (simp add: si si')
next
  case (bookkeeping s i k m tm st n)
  then show ?case by (simp add: ids_ok_def)
qed

text \<open>
  Claim C8. In every reachable state of a solver object, \<open>z\<close> and \<open>z_old\<close> are bound to two
  different objects. After every call of \<open>step()\<close> that returns, \<open>z_old\<close> holds the value
  that \<open>z\<close> had before the call, in an object that is neither the \<open>z\<close> of before the call
  nor the \<open>z\<close> of after it.
\<close>

theorem z_old_is_a_copy:
  "(reachable (s, i) \<longrightarrow> z_id i \<noteq> z_old_id i) \<and>
   (reachable (s, i) \<and> step_obj al (s, i) = Inr (s', i') \<longrightarrow>
      step s = Inr s' \<and> z_old s' = z s \<and> z_old_id i' \<noteq> z_id i \<and> z_old_id i' \<noteq> z_id i')"
proof -
  have a: "ids_ok i" if "reachable (s, i)"
    using reachable_ids_ok [OF that] by simp
  have "step s = Inr s' \<and> z_old s' = z s \<and> z_old_id i' \<noteq> z_id i \<and> z_old_id i' \<noteq> z_id i'"
    if r: "reachable (s, i)" and st: "step_obj al (s, i) = Inr (s', i')"
  proof -
    from step_obj_outcome [OF a [OF r], where al = al and s = s] st
    have b: "step s = Inr s'" "ids_ok i'" "next_id i \<le> z_old_id i'"
      by simp_all
    have "z_old s' = z s"
      using b(1) by (auto simp: step_def try_in_case Let_def split: sum.splits option.splits)
    then show ?thesis
      using b a [OF r] by (auto simp: ids_ok_def)
  qed
  with a show ?thesis
    by (auto simp: ids_ok_def)
qed

lemma scenario_reachable: "reachable (scenario_0, init_ids Input)"
  using scenario_init_eq unfolding scenario_init_def by (rule reachable.constructed)

lemma scenario_step_obj:
  "step_obj scenario_aliasing (scenario_0, init_ids Input) =
     Inr (scenario_1, \<lparr>x_id = 6, z_id = 9, z_old_id = 7, u_id = 11, next_id = 12\<rparr>)"
proof -
  have "assign_u (assign_z scenario_aliasing (assign_z_old (assign_x scenario_aliasing (init_ids Input)))) =
      \<lparr>x_id = 6, z_id = 9, z_old_id = 7, u_id = 11, next_id = 12\<rparr>"
    by (simp add: assign_u_def assign_z_def assign_z_old_def assign_x_def init_ids_def
        scenario_aliasing_def)
  then show ?thesis
    unfolding step_obj_def prod.case proxarg_scenario_0
    by (simp add: scenario_defs arr_defs Let_def)
qed

theorem z_old_is_a_copy_witness:
  "reachable (scenario_0, init_ids Input) \<and>
   z_id (init_ids Input) \<noteq> z_old_id (init_ids Input) \<and>
   step_obj scenario_aliasing (scenario_0, init_ids Input) =
     Inr (scenario_1, \<lparr>x_id = 6, z_id = 9, z_old_id = 7, u_id = 11, next_id = 12\<rparr>) \<and>
   step scenario_0 = Inr scenario_1 \<and> z_old scenario_1 = z scenario_0 \<and>
   z_old_id \<lparr>x_id = 6, z_id = 9, z_old_id = 7, u_id = 11, next_id = 12\<rparr> \<noteq> z_id (init_ids Input) \<and>
   z_old_id \<lparr>x_id = 6, z_id = 9, z_old_id = 7, u_id = 11, next_id = 12\<rparr> \<noteq>
     z_id \<lparr>x_id = 6, z_id = 9, z_old_id = 7, u_id = 11, next_id = 12\<rparr>"
  using z_old_is_a_copy [of scenario_0 "init_ids Input" scenario_aliasing scenario_1
      "\<lparr>x_id = 6, z_id = 9, z_old_id = 7, u_id = 11, next_id = 12\<rparr>"]
    scenario_reachable scenario_step_obj
  by blast

end
